theory Spec2Isabelle
  imports Main "HOL-Library.Word"
begin

section \<open>Python string primitives used by the service\<close>

text \<open>
  Python strings are modelled as \<open>string\<close>; a \<open>char\<close> stands for a code point
  below 256. The functions below are the \<open>str\<close> methods the service calls:
  \<open>strip()\<close>, \<open>split()\<close> without argument, \<open>sep.join(xs)\<close>, \<open>lower()\<close> and the
  decimal rendering of a non-negative integer inside an f-string.
\<close>

definition whitespace :: "char list" where
  \<comment> \<open>the code points below 256 for which \<open>str.isspace\<close> holds\<close>
  "whitespace = [CHR 0x09, CHR 0x0A, CHR 0x0B, CHR 0x0C, CHR 0x0D,
                 CHR 0x1C, CHR 0x1D, CHR 0x1E, CHR 0x1F, CHR 0x20, CHR 0x85, CHR 0xA0]"

definition isspace :: "char \<Rightarrow> bool" where
  "isspace c = (c \<in> set whitespace)"

definition strip :: "string \<Rightarrow> string" where
  "strip s = rev (dropWhile isspace (rev (dropWhile isspace s)))"

text \<open>
  \<open>s.split()\<close>: words are the maximal runs of non-whitespace characters; the first
  argument of \<open>split_from\<close> is the word read so far.
\<close>

fun split_from :: "string \<Rightarrow> string \<Rightarrow> string list" where
  "split_from w [] = (if w = [] then [] else [w])"
| "split_from w (c # cs) =
     (if isspace c then (if w = [] then split_from [] cs else w # split_from [] cs)
      else split_from (w @ [c]) cs)"

definition split :: "string \<Rightarrow> string list" where
  "split s = split_from [] s"

fun join :: "string \<Rightarrow> string list \<Rightarrow> string" where
  "join sep [] = []"
| "join sep [x] = x"
| "join sep (x # y # ys) = x @ sep @ join sep (y # ys)"

definition upper_letters :: string where
  "upper_letters = ''ABCDEFGHIJKLMNOPQRSTUVWXYZ''"

definition lower_letters :: string where
  "lower_letters = ''abcdefghijklmnopqrstuvwxyz''"

definition lower_char :: "char \<Rightarrow> char" where
  \<comment> \<open>\<open>str.lower\<close> on the ASCII letters; other characters are left as they are\<close>
  "lower_char c = (case map_of (zip upper_letters lower_letters) c of Some d \<Rightarrow> d | None \<Rightarrow> c)"

definition lower :: "string \<Rightarrow> string" where
  "lower s = map lower_char s"

definition digit :: "nat \<Rightarrow> char" where
  "digit d = ''0123456789'' ! d"

function str_nat :: "nat \<Rightarrow> string" where
  "str_nat n = (if n < 10 then [digit n] else str_nat (n div 10) @ [digit (n mod 10)])"
  by pat_completeness auto
termination
  by (relation "measure id") auto

declare str_nat.simps [simp del]

definition nl :: string where
  "nl = [CHR 0x0A]"

section \<open>\<open>pathlib\<close>: the suffix of a file name\<close>

text \<open>
  \<open>Path(filename).suffix\<close> as CPython's \<open>pathlib\<close> computes it for a POSIX path:
  the name is the last component that is neither empty nor \<open>.\<close>, and the suffix
  starts at the last dot of the name unless that dot is the first or the last
  character of the name.
\<close>

fun split_on :: "char \<Rightarrow> string \<Rightarrow> string \<Rightarrow> string list" where
  "split_on sep w [] = [w]"
| "split_on sep w (c # cs) =
     (if c = sep then w # split_on sep [] cs else split_on sep (w @ [c]) cs)"

definition path_name :: "string \<Rightarrow> string" where
  "path_name p =
     (let parts = filter (\<lambda>x. x \<noteq> [] \<and> x \<noteq> ''.'') (split_on (CHR ''/'') [] p)
      in if parts = [] then [] else last parts)"

definition rfind :: "string \<Rightarrow> char \<Rightarrow> int" where
  "rfind s c =
     (if c \<in> set s then int (length s) - 1 - int (length (takeWhile (\<lambda>x. x \<noteq> c) (rev s)))
      else - 1)"

definition suffix :: "string \<Rightarrow> string" where
  "suffix p =
     (let name = path_name p; i = rfind name (CHR ''.'')
      in if 0 < i \<and> i < int (length name) - 1 then drop (nat i) name else [])"

section \<open>Exceptions, external calls and their trace\<close>

text \<open>
  Exceptions are values. A message built with an f-string around another exception
  keeps that exception as an argument instead of its rendered text.
\<close>

datatype exn =
    LibError string
  | RuntimeError rt_detail
  | HTTPException nat detail
and rt_detail =
    ImageProcessingFailed exn
  | PDFConversionFailed exn
and detail =
    FilenameRequired
  | UnsupportedFileType
  | EmptyFile
  | InvalidImageFile exn
  | InvalidPDFFile exn
  | InternalServerError exn
  | NoFilesProvided
  | MaximumFilesAllowed
  | BatchProcessingFailed exn

type_synonym bytes = "8 word list"

record image =
  mode :: string
  pixels :: bytes

text \<open>
  The libraries the service calls (PIL, pdf2image, pytesseract) are parameters: each
  call either raises or returns. \<open>recognize\<close> is \<open>pytesseract.image_to_string\<close> with
  the fixed configuration \<open>--oem 3 --psm 3\<close>, \<open>contrast\<close> is
  \<open>ImageEnhance.Contrast(img).enhance(1.5)\<close> and \<open>blur\<close> is
  \<open>img.filter(ImageFilter.GaussianBlur(radius=0.5))\<close>.
\<close>

record env =
  open_image :: "bytes \<Rightarrow> exn + image"
  convert :: "image \<Rightarrow> string \<Rightarrow> exn + image"
  contrast :: "image \<Rightarrow> exn + image"
  blur :: "image \<Rightarrow> exn + image"
  recognize :: "image \<Rightarrow> string \<Rightarrow> exn + string"
  convert_from_bytes :: "bytes \<Rightarrow> int \<Rightarrow> exn + image list"

text \<open>
  The calls that read a document, decode it, rasterize it or run the recognition
  engine are recorded in the order in which they happen. Logging is not modelled.
\<close>

datatype event =
    FileRead string
  | ImageOpen bytes
  | PdfConvert bytes int
  | Ocr image string

type_synonym 'a io = "(exn + 'a) \<times> event list"

definition ret :: "'a \<Rightarrow> 'a io" where
  "ret x = (Inr x, [])"

definition raise :: "exn \<Rightarrow> 'a io" where
  "raise e = (Inl e, [])"

definition call :: "event \<Rightarrow> exn + 'a \<Rightarrow> 'a io" where
  "call ev r = (r, [ev])"

definition bind :: "'a io \<Rightarrow> ('a \<Rightarrow> 'b io) \<Rightarrow> 'b io" where
  "bind m f =
     (case fst m of
        Inl e \<Rightarrow> (Inl e, snd m)
      | Inr x \<Rightarrow> (fst (f x), snd m @ snd (f x)))"

definition catch :: "'a io \<Rightarrow> (exn \<Rightarrow> 'a io) \<Rightarrow> 'a io" where
  \<comment> \<open>\<open>try: m  except Exception as e: h e\<close>\<close>
  "catch m h =
     (case fst m of
        Inl e \<Rightarrow> (fst (h e), snd m @ snd (h e))
      | Inr x \<Rightarrow> (Inr x, snd m))"

section \<open>\<open>app/services/ocr.py\<close>\<close>

definition ensure_rgb :: "env \<Rightarrow> image \<Rightarrow> exn + image" where
  \<comment> \<open>\<open>if img.mode != "RGB": img = img.convert("RGB")\<close>\<close>
  "ensure_rgb E img = (if mode img \<noteq> ''RGB'' then convert E img ''RGB'' else Inr img)"

definition preprocess_image_for_ocr :: "env \<Rightarrow> image \<Rightarrow> image" where
  \<comment> \<open>the handler returns the variable \<open>pil_img\<close>, which the first step may have rebound\<close>
  "preprocess_image_for_ocr E pil_img =
     (case ensure_rgb E pil_img of
        Inl e \<Rightarrow> pil_img
      | Inr pil_img' \<Rightarrow>
          (case convert E pil_img' ''L'' of
             Inl e \<Rightarrow> pil_img'
           | Inr gray \<Rightarrow>
               (case contrast E gray of
                  Inl e \<Rightarrow> pil_img'
                | Inr enhanced \<Rightarrow>
                    (case blur E enhanced of
                       Inl e \<Rightarrow> pil_img'
                     | Inr processed \<Rightarrow> processed))))"

definition clean_text :: "string \<Rightarrow> string" where
  \<comment> \<open>\<open>text = text.strip(); text = ' '.join(text.split())\<close>\<close>
  "clean_text text = join '' '' (split (strip text))"

definition extract_text_from_image_bytes :: "env \<Rightarrow> bytes \<Rightarrow> string \<Rightarrow> string io" where
  "extract_text_from_image_bytes E image_bytes lang =
     catch
       (bind (call (ImageOpen image_bytes) (open_image E image_bytes)) (\<lambda>img.
          let proc = preprocess_image_for_ocr E img in
          bind (call (Ocr proc lang) (recognize E proc lang)) (\<lambda>text.
            ret (clean_text text))))
       (\<lambda>e.
          catch
            (bind (call (ImageOpen image_bytes) (open_image E image_bytes)) (\<lambda>img.
               bind (ensure_rgb E img, []) (\<lambda>img'.
                 bind (call (Ocr img' lang) (recognize E img' lang)) (\<lambda>text.
                   ret (strip text)))))
            (\<lambda>fallback_error. raise (RuntimeError (ImageProcessingFailed e))))"

definition no_text_placeholder :: "nat \<Rightarrow> string" where
  "no_text_placeholder i = ''[Page '' @ str_nat (i + 1) @ '': No text detected]''"

definition error_placeholder :: "nat \<Rightarrow> string" where
  "error_placeholder i = ''[Page '' @ str_nat (i + 1) @ '': Processing error]''"

definition process_page :: "env \<Rightarrow> string \<Rightarrow> nat \<Rightarrow> image \<Rightarrow> string io" where
  \<comment> \<open>the body of the loop over \<open>enumerate(images)\<close>; its value is the string appended\<close>
  "process_page E lang i img =
     catch
       (let proc = preprocess_image_for_ocr E img in
        bind (call (Ocr proc lang) (recognize E proc lang)) (\<lambda>raw.
          let page_text = strip raw in
          if page_text \<noteq> [] then ret page_text else ret (no_text_placeholder i)))
       (\<lambda>e. ret (error_placeholder i))"

fun process_pages :: "env \<Rightarrow> string \<Rightarrow> nat \<Rightarrow> image list \<Rightarrow> string list io" where
  "process_pages E lang i [] = ret []"
| "process_pages E lang i (img # images) =
     bind (process_page E lang i img) (\<lambda>t.
       bind (process_pages E lang (i + 1) images) (\<lambda>ts. ret (t # ts)))"

definition extract_text_from_pdf_bytes :: "env \<Rightarrow> bytes \<Rightarrow> string \<Rightarrow> int \<Rightarrow> string list io" where
  "extract_text_from_pdf_bytes E pdf_bytes lang dpi =
     bind
       (catch (call (PdfConvert pdf_bytes dpi) (convert_from_bytes E pdf_bytes dpi))
          (\<lambda>e. raise (RuntimeError (PDFConversionFailed e))))
       (\<lambda>images. process_pages E lang 0 images)"

section \<open>\<open>app/main.py\<close>\<close>

definition SUPPORTED_IMAGE_TYPES :: "string set" where
  "SUPPORTED_IMAGE_TYPES = {''.png'', ''.jpg'', ''.jpeg'', ''.bmp'', ''.tiff'', ''.webp''}"

definition SUPPORTED_PDF_TYPES :: "string set" where
  "SUPPORTED_PDF_TYPES = {''.pdf''}"

definition validate_file_type :: "string \<Rightarrow> exn + string" where
  "validate_file_type filename =
     (if filename = [] then Inl (HTTPException 400 FilenameRequired)
      else
        let file_ext = lower (suffix filename) in
        if file_ext \<in> SUPPORTED_IMAGE_TYPES then Inr ''image''
        else if file_ext \<in> SUPPORTED_PDF_TYPES then Inr ''pdf''
        else Inl (HTTPException 400 UnsupportedFileType))"

datatype upload = UploadFile (filename: string) (content: bytes)

definition page_block :: "nat \<Rightarrow> string \<Rightarrow> string" where
  \<comment> \<open>\<open>f"--- Page {i+1} ---\n{text}"\<close>\<close>
  "page_block i t = ''--- Page '' @ str_nat (i + 1) @ '' ---'' @ nl @ t"

definition combine_pages :: "string list \<Rightarrow> string" where
  \<comment> \<open>\<open>"\n\n".join([f"--- Page {i+1} ---\n{text}" for i, text in enumerate(page_texts)])\<close>\<close>
  "combine_pages page_texts =
     join (nl @ nl) (map (\<lambda>(i, t). page_block i t) (List.enumerate 0 page_texts))"

text \<open>
  The two shapes of the answer of \<open>/extract-text\<close>: \<open>NoText file_type filename\<close> is the
  answer with \<open>text\<close> empty and the message that no text could be extracted;
  \<open>Extracted text file_type filename text_length language\<close> is the other.
\<close>

datatype extraction =
    NoText string string
  | Extracted string string string nat string

definition reraise_http :: "'a io \<Rightarrow> 'a io" where
  \<comment> \<open>\<open>except HTTPException: raise\<close>, then \<open>except Exception as e: raise HTTPException(500, ...)\<close>\<close>
  "reraise_http m =
     catch m (\<lambda>e. case e of
        HTTPException c d \<Rightarrow> raise e
      | _ \<Rightarrow> raise (HTTPException 500 (InternalServerError e)))"

definition extract_text :: "env \<Rightarrow> upload \<Rightarrow> string \<Rightarrow> int \<Rightarrow> extraction io" where
  "extract_text E file language dpi =
     reraise_http
       (bind (validate_file_type (filename file), []) (\<lambda>file_type.
        bind (call (FileRead (filename file)) (Inr (content file))) (\<lambda>file_content.
          if file_content = [] then raise (HTTPException 400 EmptyFile)
          else
            bind
              (if file_type = ''image'' then
                 catch (extract_text_from_image_bytes E file_content language)
                   (\<lambda>e. raise (HTTPException 400 (InvalidImageFile e)))
               else if file_type = ''pdf'' then
                 catch
                   (bind (extract_text_from_pdf_bytes E file_content language dpi) (\<lambda>page_texts.
                      ret (combine_pages page_texts)))
                   (\<lambda>e. raise (HTTPException 400 (InvalidPDFFile e)))
               else ret [])
              (\<lambda>extracted_text.
                 if extracted_text = [] \<or> strip extracted_text = []
                 then ret (NoText file_type (filename file))
                 else ret (Extracted extracted_text file_type (filename file)
                             (length extracted_text) language)))))"

record item =
  item_filename :: string
  item_file_type :: string
  item_text :: string
  item_status :: string
  item_text_length :: "nat option"
  item_error :: "exn option"

record batch =
  results :: "item list"
  total_files :: nat
  successful :: nat
  failed :: nat

text \<open>
  The loop over the files of a batch: \<open>attempt_file\<close> is the body of the \<open>try\<close>,
  \<open>error_item\<close> the dictionary that the handler appends, and the value of
  \<open>process_file\<close> is the dictionary appended to \<open>results\<close>. \<open>validate_file_type\<close>
  returns \<open>image\<close> or \<open>pdf\<close> only, so the \<open>elif\<close> of the source is the \<open>else\<close> here.
\<close>

definition attempt_file :: "env \<Rightarrow> string \<Rightarrow> upload \<Rightarrow> item io" where
  "attempt_file E language file =
     bind (call (FileRead (filename file)) (Inr (content file))) (\<lambda>file_content.
     bind (validate_file_type (filename file), []) (\<lambda>file_type.
     bind
       (if file_type = ''image'' then extract_text_from_image_bytes E file_content language
        else
          bind (extract_text_from_pdf_bytes E file_content language 300) (\<lambda>page_texts.
            ret (combine_pages page_texts)))
       (\<lambda>t. ret \<lparr>item_filename = filename file, item_file_type = file_type, item_text = t,
                  item_status = ''success'', item_text_length = Some (length t),
                  item_error = None\<rparr>)))"

definition error_item :: "upload \<Rightarrow> exn \<Rightarrow> item" where
  "error_item file e =
     \<lparr>item_filename = filename file, item_file_type = ''unknown'', item_text = [],
      item_status = ''error'', item_text_length = None, item_error = Some e\<rparr>"

definition process_file :: "env \<Rightarrow> string \<Rightarrow> upload \<Rightarrow> item io" where
  "process_file E language file =
     catch (attempt_file E language file) (\<lambda>e. ret (error_item file e))"

fun process_files :: "env \<Rightarrow> string \<Rightarrow> upload list \<Rightarrow> item list io" where
  "process_files E language [] = ret []"
| "process_files E language (file # files) =
     bind (process_file E language file) (\<lambda>r.
       bind (process_files E language files) (\<lambda>rs. ret (r # rs)))"

definition extract_text_batch :: "env \<Rightarrow> upload list \<Rightarrow> string \<Rightarrow> batch io" where
  "extract_text_batch E files language =
     catch
       (if files = [] then raise (HTTPException 400 NoFilesProvided)
        else if length files > 10 then raise (HTTPException 400 MaximumFilesAllowed)
        else
          bind (process_files E language files) (\<lambda>rs.
            ret \<lparr>results = rs, total_files = length files,
                 successful = length (filter (\<lambda>r. item_status r = ''success'') rs),
                 failed = length (filter (\<lambda>r. item_status r = ''error'') rs)\<rparr>))
       (\<lambda>e. raise (HTTPException 500 (BatchProcessingFailed e)))"

section \<open>\<open>config.py\<close>\<close>

text \<open>
  \<open>config.py\<close> reads the batch size limit from the environment variable
  \<open>BATCH_SIZE_LIMIT\<close>, with 10 when the variable is not set. \<open>app/main.py\<close> does not
  import \<open>config\<close>: \<open>extract_text_batch\<close> above takes no configuration and compares the
  number of files with the literal 10.
\<close>

record config =
  BATCH_SIZE_LIMIT :: int

definition default_config :: config where
  "default_config = \<lparr>BATCH_SIZE_LIMIT = 10\<rparr>"

section \<open>A concrete environment\<close>

text \<open>
  An environment to run the definitions on. A decoded image keeps the bytes of its
  file as pixels, every byte of a PDF is one page, and the first byte of an image
  selects what the libraries do with it: 0 is never recognized, 1 is blank, 2 is
  recognized in mode RGB only, 3 cannot be converted to grayscale.
\<close>

definition demo_open_image :: "bytes \<Rightarrow> exn + image" where
  "demo_open_image b =
     (if b = [] then Inl (LibError ''cannot identify image file'')
      else Inr \<lparr>mode = ''RGB'', pixels = b\<rparr>)"

definition demo_convert :: "image \<Rightarrow> string \<Rightarrow> exn + image" where
  "demo_convert img m =
     (if m = ''L'' \<and> pixels img = [3] then Inl (LibError ''conversion failed'')
      else Inr (img\<lparr>mode := m\<rparr>))"

definition demo_recognize :: "image \<Rightarrow> string \<Rightarrow> exn + string" where
  "demo_recognize img lang =
     (if pixels img = [0] then Inl (LibError ''tesseract failed'')
      else if pixels img = [1] then Inr ('' '' @ nl)
      else if pixels img = [2] then
        (if mode img = ''RGB'' then Inr (''Total:  42'' @ nl) else Inl (LibError ''tesseract failed''))
      else Inr ('' Hello   world '' @ nl))"

definition demo_convert_from_bytes :: "bytes \<Rightarrow> int \<Rightarrow> exn + image list" where
  "demo_convert_from_bytes b dpi =
     (if b = [] then Inl (LibError ''Unable to get page count'')
      else Inr (map (\<lambda>k. \<lparr>mode = ''RGB'', pixels = [k]\<rparr>) b))"

definition demo_env :: env where
  "demo_env = \<lparr>open_image = demo_open_image, convert = demo_convert, contrast = Inr,
               blur = Inr, recognize = demo_recognize,
               convert_from_bytes = demo_convert_from_bytes\<rparr>"

section \<open>Notions used in the statements\<close>

text \<open>
  A string is trimmed when it neither starts nor ends with whitespace, and
  single-spaced when each of its whitespace characters is a space followed by a
  character that is not whitespace. A word is a non-empty string without whitespace.
\<close>

definition trimmed :: "string \<Rightarrow> bool" where
  "trimmed s = (s = [] \<or> (\<not> isspace (hd s) \<and> \<not> isspace (last s)))"

fun single_spaced :: "string \<Rightarrow> bool" where
  "single_spaced [] = True"
| "single_spaced [c] = (isspace c \<longrightarrow> c = CHR '' '')"
| "single_spaced (c # d # cs) =
     ((isspace c \<longrightarrow> c = CHR '' '' \<and> \<not> isspace d) \<and> single_spaced (d # cs))"

definition word :: "string \<Rightarrow> bool" where
  "word x = (x \<noteq> [] \<and> (\<forall>c \<in> set x. \<not> isspace c))"

text \<open>
  The entry of one file of a batch, processed on its own: what the body of the
  \<open>try\<close> returns, or the error entry for the exception it raises.
\<close>

definition file_item :: "env \<Rightarrow> string \<Rightarrow> upload \<Rightarrow> item" where
  "file_item E language file =
     (case fst (attempt_file E language file) of Inl e \<Rightarrow> error_item file e | Inr r \<Rightarrow> r)"

text \<open>
  The outcome of one PDF page, read off the branches of the loop body of
  \<open>extract_text_from_pdf_bytes\<close>: the recognized text after \<open>strip()\<close> when it is not
  empty, no text, or the exception of the recognition call.
\<close>

datatype page_status = Ok string | NoTextDetected | Error exn

definition page_result :: "env \<Rightarrow> string \<Rightarrow> image \<Rightarrow> page_status" where
  "page_result E lang img =
     (case recognize E (preprocess_image_for_ocr E img) lang of
        Inl e \<Rightarrow> Error e
      | Inr raw \<Rightarrow> if strip raw = [] then NoTextDetected else Ok (strip raw))"

definition marker :: "nat \<Rightarrow> string" where
  "marker i = ''--- Page '' @ str_nat (i + 1) @ '' ---''"

text \<open>
  The combined text in the words of the specification: after its marker line a page
  contributes its text when its status is \<open>Ok\<close> and nothing otherwise.
\<close>

definition spec_page_text :: "page_status \<Rightarrow> string" where
  "spec_page_text r = (case r of Ok t \<Rightarrow> t | NoTextDetected \<Rightarrow> [] | Error e \<Rightarrow> [])"

definition spec_combined_text :: "page_status list \<Rightarrow> string" where
  "spec_combined_text rs =
     join (nl @ nl) (map (\<lambda>(i, r). marker i @ nl @ spec_page_text r) (List.enumerate 0 rs))"

text \<open>
  The combined text that the service assembles: a page without text and a page whose
  recognition failed contribute the placeholder that the loop appends for them.
\<close>

definition page_contribution :: "nat \<Rightarrow> page_status \<Rightarrow> string" where
  "page_contribution i r =
     (case r of
        Ok t \<Rightarrow> t
      | NoTextDetected \<Rightarrow> no_text_placeholder i
      | Error e \<Rightarrow> error_placeholder i)"

definition assembled_text :: "env \<Rightarrow> string \<Rightarrow> image list \<Rightarrow> string" where
  "assembled_text E lang images =
     join (nl @ nl)
       (map (\<lambda>(i, img). marker i @ nl @ page_contribution i (page_result E lang img))
          (List.enumerate 0 images))"

section \<open>Whitespace normalization\<close>

lemma isspace_space: "isspace (CHR '' '')"
  by (simp add: isspace_def whitespace_def)

lemma split_from_words:
  "\<forall>c \<in> set w. \<not> isspace c \<Longrightarrow> \<forall>x \<in> set (split_from w s). word x"
proof (induction s arbitrary: w)
  case Nil
  then show ?case by (simp add: word_def)
next
  case (Cons c cs)
  have e: "\<forall>x \<in> set (split_from [] cs). word x" by (rule Cons.IH) simp
  show ?case
  proof (cases "isspace c")
    case True
    with e Cons.prems show ?thesis by (simp add: word_def)
  next
    case False
    with Cons.prems have "\<forall>x \<in> set (split_from (w @ [c]) cs). word x"
      by (intro Cons.IH) simp
    with False show ?thesis by simp
  qed
qed

lemma split_from_word_prefix:
  "\<forall>c \<in> set x. \<not> isspace c \<Longrightarrow> split_from w (x @ s) = split_from (w @ x) s"
  by (induction x arbitrary: w) auto

lemma split_join_words:
  "\<forall>x \<in> set ws. word x \<Longrightarrow> split_from [] (join '' '' ws) = ws"
proof (induction ws rule: induct_list012)
  case 1
  then show ?case by simp
next
  case (2 x)
  then have "split_from [] (x @ []) = split_from ([] @ x) []"
    by (intro split_from_word_prefix) (simp add: word_def)
  with 2 show ?case by (simp add: word_def)
next
  case (3 x y ys)
  have x: "\<forall>c \<in> set x. \<not> isspace c" "x \<noteq> []" using 3 by (auto simp: word_def)
  have "split_from [] (x @ '' '' @ join '' '' (y # ys)) = split_from ([] @ x) ('' '' @ join '' '' (y # ys))"
    using x(1) by (rule split_from_word_prefix)
  also have "\<dots> = x # split_from [] (join '' '' (y # ys))"
    using x(2) by (simp add: isspace_space)
  finally show ?case using 3 by simp
qed

lemma dropWhile_id: "s = [] \<or> \<not> P (hd s) \<Longrightarrow> dropWhile P s = s"
  by (cases s) auto

lemma strip_trimmed: "trimmed s \<Longrightarrow> strip s = s"
  unfolding trimmed_def strip_def
  by (cases "s = []") (simp_all add: dropWhile_id hd_rev)

lemma hd_join: "ws \<noteq> [] \<Longrightarrow> hd ws \<noteq> [] \<Longrightarrow> hd (join sep ws) = hd (hd ws)"
  by (induction sep ws rule: join.induct) auto

lemma join_last_nonempty: "ws \<noteq> [] \<Longrightarrow> last ws \<noteq> [] \<Longrightarrow> join sep ws \<noteq> []"
  by (induction sep ws rule: join.induct) auto

lemma last_join: "ws \<noteq> [] \<Longrightarrow> last ws \<noteq> [] \<Longrightarrow> last (join sep ws) = last (last ws)"
proof (induction sep ws rule: join.induct)
  case (3 sep x y ys)
  then have "join sep (y # ys) \<noteq> []" by (intro join_last_nonempty) auto
  with 3 show ?case by simp
qed auto

lemma join_eq_Nil: "\<forall>x \<in> set ws. x \<noteq> [] \<Longrightarrow> join sep ws = [] \<longleftrightarrow> ws = []"
  by (induction sep ws rule: join.induct) auto

lemma trimmed_join_words: "\<forall>x \<in> set ws. word x \<Longrightarrow> trimmed (join '' '' ws)"
proof (cases "ws = []")
  case True
  then show ?thesis by (simp add: trimmed_def)
next
  case False
  assume w: "\<forall>x \<in> set ws. word x"
  with False have "word (hd ws)" "word (last ws)" by auto
  then show ?thesis
    using False by (auto simp: trimmed_def word_def hd_join last_join)
qed

lemma single_spaced_word_append:
  "\<forall>c \<in> set x. \<not> isspace c \<Longrightarrow> single_spaced (x @ s) = single_spaced s"
proof (induction x)
  case Nil
  then show ?case by simp
next
  case (Cons a x)
  then show ?case by (cases "x @ s") auto
qed

lemma single_spaced_join_words: "\<forall>x \<in> set ws. word x \<Longrightarrow> single_spaced (join '' '' ws)"
proof (induction ws rule: induct_list012)
  case 1
  then show ?case by simp
next
  case (2 x)
  then have "single_spaced (x @ []) = single_spaced []"
    by (intro single_spaced_word_append) (simp add: word_def)
  then show ?case by simp
next
  case (3 x y ys)
  have "word y" using 3 by simp
  then have "\<not> isspace (hd (join '' '' (y # ys)))"
    by (simp add: hd_join word_def)
  moreover have "join '' '' (y # ys) \<noteq> []"
    using 3 by (simp add: join_eq_Nil word_def)
  ultimately have "single_spaced ('' '' @ join '' '' (y # ys))"
    using 3 by (cases "join '' '' (y # ys)") (auto simp: isspace_space)
  moreover have "single_spaced (x @ '' '' @ join '' '' (y # ys)) = single_spaced ('' '' @ join '' '' (y # ys))"
    using 3 by (intro single_spaced_word_append) (simp add: word_def)
  ultimately show ?case by simp
qed

lemma join_split_from:
  "\<forall>c \<in> set w. \<not> isspace c \<Longrightarrow> single_spaced s \<Longrightarrow> s = [] \<or> \<not> isspace (last s) \<Longrightarrow>
   w = [] \<longrightarrow> s = [] \<or> \<not> isspace (hd s) \<Longrightarrow>
   join '' '' (split_from w s) = w @ s"
proof (induction s arbitrary: w)
  case Nil
  then show ?case by simp
next
  case (Cons c cs)
  show ?case
  proof (cases "isspace c")
    case True
    with Cons.prems have w: "w \<noteq> []" and cs: "cs \<noteq> []" by auto
    from True Cons.prems(2) cs have c: "c = CHR '' ''" and hd: "\<not> isspace (hd cs)" and ss: "single_spaced cs"
      by (cases cs; simp)+
    have "join '' '' (split_from [] cs) = [] @ cs"
      using ss hd cs Cons.prems(3) by (intro Cons.IH) auto
    then have j: "join '' '' (split_from [] cs) = cs" by simp
    with cs have "split_from [] cs \<noteq> []" by auto
    then obtain y ys where "split_from [] cs = y # ys" by (cases "split_from [] cs") auto
    with j True w c show ?thesis by simp
  next
    case False
    have ss: "single_spaced cs" using Cons.prems(2) False by (cases cs) auto
    have "join '' '' (split_from (w @ [c]) cs) = (w @ [c]) @ cs"
      using Cons.prems False ss by (intro Cons.IH) (auto split: if_splits)
    with False show ?thesis by simp
  qed
qed

lemma clean_text_normalized: "trimmed s \<Longrightarrow> single_spaced s \<Longrightarrow> clean_text s = s"
proof -
  assume t: "trimmed s" and ss: "single_spaced s"
  have "join '' '' (split_from [] s) = [] @ s"
    using t ss by (intro join_split_from) (auto simp: trimmed_def)
  with t show ?thesis by (simp add: clean_text_def split_def strip_trimmed)
qed

lemma clean_text_is_join_words: "\<exists>ws. (\<forall>x \<in> set ws. word x) \<and> clean_text s = join '' '' ws"
  unfolding clean_text_def split_def
  using split_from_words[of "[]" "strip s"] by auto

text \<open>
  C7: the normalization \<open>text.strip()\<close> followed by \<open>' '.join(text.split())\<close> is
  idempotent: its result is trimmed and single-spaced, normalizing the result again
  changes nothing, and a string that is already trimmed and single-spaced is
  returned as it is.
\<close>

theorem clean_text_idempotent:
  "trimmed (clean_text s) \<and> single_spaced (clean_text s) \<and>
   clean_text (clean_text s) = clean_text s \<and>
   (trimmed s \<and> single_spaced s \<longrightarrow> clean_text s = s)"
proof -
  obtain ws where ws: "\<forall>x \<in> set ws. word x" "clean_text s = join '' '' ws"
    using clean_text_is_join_words by blast
  have 1: "trimmed (clean_text s)" using ws by (simp add: trimmed_join_words)
  have 2: "single_spaced (clean_text s)" using ws by (simp add: single_spaced_join_words)
  from 1 2 show ?thesis by (simp add: clean_text_normalized)
qed

theorem clean_text_idempotent_witness:
  "trimmed ''Hello world'' \<and> single_spaced ''Hello world'' \<and> clean_text ''Hello world'' = ''Hello world''
   \<and> clean_text ('' Hello   world '' @ nl) = ''Hello world''"
  using clean_text_idempotent[of "''Hello world''"]
  by (simp add: trimmed_def isspace_def whitespace_def clean_text_def strip_def split_def nl_def)

section \<open>File type classification\<close>

lemmas io_defs = bind_def catch_def ret_def raise_def call_def

lemma suffix_Nil: "suffix [] = []"
  by (simp add: suffix_def path_name_def rfind_def)

lemma validate_file_type_range:
  "validate_file_type f = Inr k \<Longrightarrow> k = ''image'' \<or> k = ''pdf''"
  by (auto simp: validate_file_type_def Let_def split: if_splits)

lemma validate_file_type_error:
  "validate_file_type f = Inl e \<Longrightarrow> e = HTTPException 400 FilenameRequired \<or> e = HTTPException 400 UnsupportedFileType"
  by (auto simp: validate_file_type_def Let_def split: if_splits)

text \<open>
  C4: \<open>validate_file_type\<close> looks at the file name only. A name whose lower-cased
  suffix is one of \<open>.png .jpg .jpeg .bmp .tiff .webp\<close> is classified \<open>image\<close>, a name
  whose lower-cased suffix is \<open>.pdf\<close> is classified \<open>pdf\<close>, and the empty name and
  every other name are rejected with an HTTP 400 exception.
\<close>

theorem validate_file_type_classifies:
  "(lower (suffix f) \<in> {''.png'', ''.jpg'', ''.jpeg'', ''.bmp'', ''.tiff'', ''.webp''}
      \<longrightarrow> validate_file_type f = Inr ''image'') \<and>
   (lower (suffix f) = ''.pdf'' \<longrightarrow> validate_file_type f = Inr ''pdf'') \<and>
   (f = [] \<longrightarrow> validate_file_type f = Inl (HTTPException 400 FilenameRequired)) \<and>
   (f \<noteq> [] \<and> lower (suffix f) \<notin> {''.png'', ''.jpg'', ''.jpeg'', ''.bmp'', ''.tiff'', ''.webp'', ''.pdf''}
      \<longrightarrow> validate_file_type f = Inl (HTTPException 400 UnsupportedFileType))"
proof -
  have "f = [] \<Longrightarrow> lower (suffix f) = []" by (simp add: suffix_Nil lower_def)
  then show ?thesis
    by (auto simp: validate_file_type_def SUPPORTED_IMAGE_TYPES_def SUPPORTED_PDF_TYPES_def Let_def)
qed

lemma suffix_ex1: "lower (suffix ''Scan.PNG'') = ''.png''"
  by (simp add: suffix_def path_name_def rfind_def lower_def lower_char_def upper_letters_def lower_letters_def)
lemma suffix_ex2: "lower (suffix ''archive/report.Pdf'') = ''.pdf''"
  by (simp add: suffix_def path_name_def rfind_def lower_def lower_char_def upper_letters_def lower_letters_def)
lemma suffix_ex3: "lower (suffix ''notes.txt'') = ''.txt''"
  by (simp add: suffix_def path_name_def rfind_def lower_def lower_char_def upper_letters_def lower_letters_def)

theorem validate_file_type_classifies_witness:
  "validate_file_type ''Scan.PNG'' = Inr ''image'' \<and>
   validate_file_type ''archive/report.Pdf'' = Inr ''pdf'' \<and>
   validate_file_type [] = Inl (HTTPException 400 FilenameRequired) \<and>
   validate_file_type ''notes.txt'' = Inl (HTTPException 400 UnsupportedFileType)"
  using validate_file_type_classifies[of "''Scan.PNG''"]
    validate_file_type_classifies[of "''archive/report.Pdf''"]
    validate_file_type_classifies[of "[]"]
    validate_file_type_classifies[of "''notes.txt''"]
  by (simp add: suffix_ex1 suffix_ex2 suffix_ex3)

section \<open>Batch extraction\<close>

lemma process_file_result:
  "fst (process_file E language file) = Inr (file_item E language file)"
  by (simp add: process_file_def file_item_def io_defs split: sum.splits)

lemma process_files_result:
  "fst (process_files E language files) = Inr (map (file_item E language) files)"
  by (induction files) (simp_all add: io_defs process_file_result)

lemma attempt_file_success:
  "fst (attempt_file E language file) = Inr r \<Longrightarrow>
   item_status r = ''success'' \<and> item_filename r = filename file"
  by (auto simp: attempt_file_def io_defs split: sum.splits if_splits)

lemma file_item_filename: "item_filename (file_item E language file) = filename file"
  by (auto simp: file_item_def error_item_def split: sum.splits dest: attempt_file_success)

lemma file_item_status:
  "item_status (file_item E language file) =
     (case fst (attempt_file E language file) of Inl e \<Rightarrow> ''error'' | Inr r \<Rightarrow> ''success'')"
  by (auto simp: file_item_def error_item_def split: sum.splits dest: attempt_file_success)

lemma count_status:
  "length (filter (\<lambda>r. item_status r = ''success'') (map (file_item E language) files)) +
   length (filter (\<lambda>r. item_status r = ''error'') (map (file_item E language) files)) =
   length files"
  by (induction files) (auto simp: file_item_status split: sum.splits)

lemma extract_text_batch_result:
  "files \<noteq> [] \<Longrightarrow> length files \<le> 10 \<Longrightarrow>
   fst (extract_text_batch E files language) =
     Inr \<lparr>results = map (file_item E language) files, total_files = length files,
          successful = length (filter (\<lambda>r. item_status r = ''success'') (map (file_item E language) files)),
          failed = length (filter (\<lambda>r. item_status r = ''error'') (map (file_item E language) files))\<rparr>"
  by (simp add: extract_text_batch_def io_defs process_files_result)

lemma extract_text_batch_Inr:
  "fst (extract_text_batch E files language) = Inr b \<Longrightarrow> files \<noteq> [] \<and> length files \<le> 10"
  by (auto simp: extract_text_batch_def io_defs split: if_splits)

text \<open>
  A batch of more than 10 files is rejected before any file is read, decoded or
  recognized: the trace of external calls is empty. The exception raised in the
  \<open>try\<close> is the HTTP 400 one with the message that at most 10 files are allowed;
  the handler of the same \<open>try\<close> catches it and raises the HTTP 500 one around it.
\<close>

lemma extract_text_batch_over_ten:
  "length files > 10 \<Longrightarrow>
   extract_text_batch E files language =
     (Inl (HTTPException 500 (BatchProcessingFailed (HTTPException 400 MaximumFilesAllowed))), [])"
  by (auto simp: extract_text_batch_def io_defs)

text \<open>
  C8: with a configured limit of 5, a batch of 7 files exceeds the limit and is not
  rejected: the 7 files are read, decoded and recognized, and the answer has 7
  entries. With the limit of 10 of the default configuration, a batch of 11 files
  is rejected before any file is read, and the exception that leaves the call is
  the HTTP 500 one of the outer handler, not the HTTP 400 one of the rejection.
\<close>

theorem batch_limit_hard_coded:
  "BATCH_SIZE_LIMIT \<lparr>BATCH_SIZE_LIMIT = 5\<rparr> < int (length (replicate 7 (UploadFile ''a.png'' [5]))) \<and>
   fst (extract_text_batch demo_env (replicate 7 (UploadFile ''a.png'' [5])) ''eng'') =
     Inr \<lparr>results =
            replicate 7
              \<lparr>item_filename = ''a.png'', item_file_type = ''image'', item_text = ''Hello world'',
                 item_status = ''success'', item_text_length = Some 11, item_error = None\<rparr>,
          total_files = 7, successful = 7, failed = 0\<rparr> \<and>
   length (snd (extract_text_batch demo_env (replicate 7 (UploadFile ''a.png'' [5])) ''eng'')) = 21 \<and>
   BATCH_SIZE_LIMIT default_config < int (length (replicate 11 (UploadFile ''a.png'' [5]))) \<and>
   extract_text_batch demo_env (replicate 11 (UploadFile ''a.png'' [5])) ''eng'' =
     (Inl (HTTPException 500 (BatchProcessingFailed (HTTPException 400 MaximumFilesAllowed))), []) \<and>
   fst (extract_text_batch demo_env (replicate 11 (UploadFile ''a.png'' [5])) ''eng'') \<noteq>
     Inl (HTTPException 400 MaximumFilesAllowed)"
  by code_simp

text \<open>
  C2, amended: for every batch of at least one and at most 10 files the call
  returns. The entries are those of the files processed one by one, in the order of
  the files: a file whose processing raises gets its error entry with status
  \<open>error\<close>, every other file gets its entry with status \<open>success\<close>, and
  \<open>successful + failed = total_files = number of entries\<close>.
\<close>

theorem batch_isolation:
  "files \<noteq> [] \<Longrightarrow> length files \<le> 10 \<Longrightarrow>
   \<exists>b. fst (extract_text_batch E files language) = Inr b \<and>
       results b = map (file_item E language) files \<and>
       map item_filename (results b) = map filename files \<and>
       (\<forall>i < length files.
          case fst (attempt_file E language (files ! i)) of
            Inl e \<Rightarrow> results b ! i = error_item (files ! i) e \<and> item_status (results b ! i) = ''error''
          | Inr r \<Rightarrow> results b ! i = r \<and> item_status (results b ! i) = ''success'') \<and>
       length (results b) = length files \<and>
       total_files b = length files \<and>
       successful b + failed b = total_files b"
proof -
  assume a: "files \<noteq> []" "length files \<le> 10"
  let ?b = "\<lparr>results = map (file_item E language) files, total_files = length files,
          successful = length (filter (\<lambda>r. item_status r = ''success'') (map (file_item E language) files)),
          failed = length (filter (\<lambda>r. item_status r = ''error'') (map (file_item E language) files))\<rparr>"
  have 1: "fst (extract_text_batch E files language) = Inr ?b"
    using a by (rule extract_text_batch_result)
  have 2: "map item_filename (results ?b) = map filename files"
    by (simp add: file_item_filename)
  have 3: "\<forall>i < length files.
          case fst (attempt_file E language (files ! i)) of
            Inl e \<Rightarrow> results ?b ! i = error_item (files ! i) e \<and> item_status (results ?b ! i) = ''error''
          | Inr r \<Rightarrow> results ?b ! i = r \<and> item_status (results ?b ! i) = ''success''"
    by (auto simp: file_item_status split: sum.splits) (simp_all add: file_item_def)
  have 4: "successful ?b + failed ?b = total_files ?b"
    using count_status[of E language files] by simp
  show ?thesis
    using 1 2 3 4 by (intro exI[of _ ?b]) simp
qed

text \<open>The batch without files is within the limit and is rejected.\<close>

theorem batch_isolation_counterexample:
  "length ([] :: upload list) \<le> 10 \<and>
   extract_text_batch demo_env [] ''eng'' =
     (Inl (HTTPException 500 (BatchProcessingFailed (HTTPException 400 NoFilesProvided))), [])"
  by (simp add: extract_text_batch_def io_defs)

text \<open>
  Three documents of which the second has no bytes: the entries keep the order of the
  documents and the second one is the error entry.
\<close>

theorem batch_isolation_witness:
  "[UploadFile ''a.png'' [5], UploadFile ''b.pdf'' [], UploadFile ''c.jpg'' [2]] \<noteq> [] \<and>
   length [UploadFile ''a.png'' [5], UploadFile ''b.pdf'' [], UploadFile ''c.jpg'' [2]] \<le> 10 \<and>
   (\<exists>b. fst (extract_text_batch demo_env
              [UploadFile ''a.png'' [5], UploadFile ''b.pdf'' [], UploadFile ''c.jpg'' [2]] ''eng'') = Inr b \<and>
        map item_filename (results b) = [''a.png'', ''b.pdf'', ''c.jpg''] \<and>
        map item_status (results b) = [''success'', ''error'', ''success''] \<and>
        total_files b = 3 \<and> successful b + failed b = 3)"
proof -
  let ?files = "[UploadFile ''a.png'' [5], UploadFile ''b.pdf'' [], UploadFile ''c.jpg'' [2]]"
  have ne: "?files \<noteq> []" by simp
  have le: "length ?files \<le> 10" by simp
  have ev: "map item_status (map (file_item demo_env ''eng'') ?files) = [''success'', ''error'', ''success'']"
    by code_simp
  obtain b where b: "fst (extract_text_batch demo_env ?files ''eng'') = Inr b"
    "results b = map (file_item demo_env ''eng'') ?files"
    "map item_filename (results b) = map filename ?files"
    "total_files b = length ?files" "successful b + failed b = total_files b"
    using batch_isolation[OF ne le, of demo_env "''eng''"] by blast
  from b(2) ev have "map item_status (results b) = [''success'', ''error'', ''success'']"
    by simp
  with b show ?thesis by (intro conjI exI[of _ b]) simp_all
qed

text \<open>
  C10: in the answer of a batch, every entry with status \<open>error\<close> has the file type
  \<open>unknown\<close> and the empty text, whatever \<open>validate_file_type\<close> returned for the
  file.
\<close>

theorem batch_error_item_fields:
  "fst (extract_text_batch E files language) = Inr b \<Longrightarrow> r \<in> set (results b) \<Longrightarrow>
   item_status r = ''error'' \<Longrightarrow>
   item_file_type r = ''unknown'' \<and> item_text r = []"
proof -
  assume b: "fst (extract_text_batch E files language) = Inr b"
    and r: "r \<in> set (results b)" and s: "item_status r = ''error''"
  from b have ne: "files \<noteq> []" and le: "length files \<le> 10"
    using extract_text_batch_Inr by blast+
  have "results b = map (file_item E language) files"
    using b extract_text_batch_result[OF ne le, of E language] by auto
  with r obtain f where f: "r = file_item E language f" by auto
  show ?thesis
  proof (cases "fst (attempt_file E language f)")
    case (Inl e)
    with f show ?thesis by (simp add: file_item_def error_item_def)
  next
    case (Inr r')
    with f s show ?thesis by (simp add: file_item_status)
  qed
qed

text \<open>
  A file named \<open>d.tiff\<close> is classified as an image; its recognition fails and its
  entry reports the file type \<open>unknown\<close>.
\<close>

theorem batch_error_item_fields_witness:
  "validate_file_type ''d.tiff'' = Inr ''image'' \<and>
   fst (extract_text_batch demo_env [UploadFile ''d.tiff'' [0]] ''eng'') =
     Inr \<lparr>results = [error_item (UploadFile ''d.tiff'' [0])
                        (RuntimeError (ImageProcessingFailed (LibError ''tesseract failed'')))],
          total_files = 1, successful = 0, failed = 1\<rparr> \<and>
   item_status (error_item (UploadFile ''d.tiff'' [0])
      (RuntimeError (ImageProcessingFailed (LibError ''tesseract failed'')))) = ''error'' \<and>
   item_file_type (error_item (UploadFile ''d.tiff'' [0])
      (RuntimeError (ImageProcessingFailed (LibError ''tesseract failed'')))) = ''unknown'' \<and>
   item_text (error_item (UploadFile ''d.tiff'' [0])
      (RuntimeError (ImageProcessingFailed (LibError ''tesseract failed'')))) = []"
proof -
  let ?r = "error_item (UploadFile ''d.tiff'' [0])
      (RuntimeError (ImageProcessingFailed (LibError ''tesseract failed'')))"
  let ?b = "\<lparr>results = [?r], total_files = 1, successful = 0, failed = 1\<rparr>"
  have v: "validate_file_type ''d.tiff'' = Inr ''image''" by code_simp
  have ev: "fst (extract_text_batch demo_env [UploadFile ''d.tiff'' [0]] ''eng'') = Inr ?b"
    by code_simp
  have m: "?r \<in> set (results ?b)" by simp
  have st: "item_status ?r = ''error''" by (simp add: error_item_def)
  show ?thesis
    using batch_error_item_fields[OF ev m st] v ev st by simp
qed

section \<open>Single-document extraction\<close>

text \<open>
  C9, amended: a document without bytes is rejected before any image is decoded,
  any PDF is rasterized and any recognition is run. When its file name is
  classified, the exception is the HTTP 400 exception for an empty file, raised
  right after the file is read; when its file name is not classified, the
  exception is the one of the classification and the file is not even read.
\<close>

theorem extract_text_zero_byte:
  "content file = [] \<Longrightarrow>
   extract_text E file language dpi =
     (case validate_file_type (filename file) of
        Inl e \<Rightarrow> (Inl e, [])
      | Inr k \<Rightarrow> (Inl (HTTPException 400 EmptyFile), [FileRead (filename file)]))"
  by (auto simp: extract_text_def reraise_http_def io_defs split: sum.splits
      dest: validate_file_type_error)

theorem extract_text_zero_byte_witness:
  "content (UploadFile ''scan.jpeg'' []) = [] \<and>
   extract_text demo_env (UploadFile ''scan.jpeg'' []) ''eng'' 300 =
     (Inl (HTTPException 400 EmptyFile), [FileRead ''scan.jpeg''])"
proof -
  have "validate_file_type ''scan.jpeg'' = Inr ''image''"
    by (simp add: validate_file_type_def SUPPORTED_IMAGE_TYPES_def suffix_def path_name_def rfind_def lower_def lower_char_def upper_letters_def lower_letters_def)
  then show ?thesis
    using extract_text_zero_byte[of "UploadFile ''scan.jpeg'' []" demo_env "''eng''" 300] by simp
qed

theorem extract_text_zero_byte_counterexample:
  "content (UploadFile ''notes.txt'' []) = [] \<and>
   fst (extract_text demo_env (UploadFile ''notes.txt'' []) ''eng'' 300) =
     Inl (HTTPException 400 UnsupportedFileType) \<and>
   fst (extract_text demo_env (UploadFile ''notes.txt'' []) ''eng'' 300) \<noteq>
     Inl (HTTPException 400 EmptyFile)"
proof -
  have "validate_file_type ''notes.txt'' = Inl (HTTPException 400 UnsupportedFileType)"
    by (simp add: validate_file_type_def SUPPORTED_IMAGE_TYPES_def SUPPORTED_PDF_TYPES_def suffix_def path_name_def rfind_def lower_def lower_char_def upper_letters_def lower_letters_def)
  then show ?thesis
    by (simp add: extract_text_def reraise_http_def io_defs)
qed

section \<open>Pages of a PDF\<close>

lemma process_page_result:
  "process_page E lang i img =
     (Inr (page_contribution i (page_result E lang img)),
      [Ocr (preprocess_image_for_ocr E img) lang])"
  by (simp add: process_page_def page_contribution_def page_result_def io_defs Let_def
      split: sum.splits)

lemma process_pages_result:
  "fst (process_pages E lang i images) =
     Inr (map (\<lambda>(j, img). page_contribution j (page_result E lang img)) (List.enumerate i images))"
  by (induction images arbitrary: i) (simp_all add: io_defs process_page_result)

lemma process_pages_trace:
  "snd (process_pages E lang i images) =
     map (\<lambda>img. Ocr (preprocess_image_for_ocr E img) lang) images"
  by (induction images arbitrary: i) (simp_all add: io_defs process_page_result process_pages_result)

lemma join_hd_nonempty: "ws \<noteq> [] \<Longrightarrow> hd ws \<noteq> [] \<Longrightarrow> join sep ws \<noteq> []"
  by (induction sep ws rule: join.induct) auto

lemma map_enumerate_map:
  "map (\<lambda>(i, t). F i t) (List.enumerate n (map (\<lambda>(j, x). G j x) (List.enumerate n xs))) =
   map (\<lambda>(i, x). F i (G i x)) (List.enumerate n xs)"
  by (induction xs arbitrary: n) simp_all

lemma combine_pages_assembled:
  "combine_pages (map (\<lambda>(j, img). page_contribution j (page_result E lang img)) (List.enumerate 0 images))
   = assembled_text E lang images"
  unfolding combine_pages_def assembled_text_def page_block_def marker_def
  by (simp add: map_enumerate_map)

lemma strip_nonempty: "s \<noteq> [] \<Longrightarrow> \<not> isspace (hd s) \<Longrightarrow> strip s \<noteq> []"
proof -
  assume a: "s \<noteq> []" "\<not> isspace (hd s)"
  then have "dropWhile isspace s = s" by (simp add: dropWhile_id)
  moreover have "hd s \<in> set (rev s)" using a by simp
  then have "dropWhile isspace (rev s) \<noteq> []"
    using a(2) by (metis dropWhile_eq_Nil_conv)
  ultimately show ?thesis by (simp add: strip_def)
qed

lemma assembled_text_starts:
  "images \<noteq> [] \<Longrightarrow> assembled_text E lang images \<noteq> [] \<and> hd (assembled_text E lang images) = CHR ''-''"
proof -
  assume "images \<noteq> []"
  then obtain img rest where i: "images = img # rest" by (cases images) auto
  let ?bs = "map (\<lambda>(i, img). marker i @ nl @ page_contribution i (page_result E lang img))
          (List.enumerate 0 images)"
  have 1: "?bs \<noteq> []" using i by simp
  have 2: "hd ?bs \<noteq> [] \<and> hd (hd ?bs) = CHR ''-''" using i by (simp add: marker_def)
  have "join (nl @ nl) ?bs \<noteq> []"
    using 1 2 by (simp add: join_hd_nonempty)
  then show ?thesis using 1 2 by (simp add: assembled_text_def hd_join)
qed

text \<open>
  C1, amended: for a PDF document that is rasterized into at least one page, the
  combined text is, in the order of the pages, the line \<open>--- Page N ---\<close> with
  \<open>N\<close> counted from 1, a line break and the contribution of the page, with an empty
  line between two pages. A page with text contributes its text; a page without
  text contributes \<open>[Page N: No text detected]\<close> and a page whose recognition raised
  contributes \<open>[Page N: Processing error]\<close>.
\<close>

theorem pdf_combined_text:
  "validate_file_type (filename file) = Inr ''pdf'' \<Longrightarrow> content file \<noteq> [] \<Longrightarrow>
   convert_from_bytes E (content file) dpi = Inr images \<Longrightarrow> images \<noteq> [] \<Longrightarrow>
   fst (extract_text E file language dpi) =
     Inr (Extracted (assembled_text E language images) ''pdf'' (filename file)
            (length (assembled_text E language images)) language)"
proof -
  assume v: "validate_file_type (filename file) = Inr ''pdf''" and c: "content file \<noteq> []"
    and r: "convert_from_bytes E (content file) dpi = Inr images" and n: "images \<noteq> []"
  have p: "fst (extract_text_from_pdf_bytes E (content file) language dpi) =
      Inr (map (\<lambda>(j, img). page_contribution j (page_result E language img)) (List.enumerate 0 images))"
    using r by (simp add: extract_text_from_pdf_bytes_def io_defs process_pages_result)
  have s1: "assembled_text E language images \<noteq> []"
    using assembled_text_starts[OF n, of E language] by simp
  have "\<not> isspace (hd (assembled_text E language images))"
    using assembled_text_starts[OF n, of E language] by (simp add: isspace_def whitespace_def)
  with s1 have s2: "strip (assembled_text E language images) \<noteq> []"
    by (rule strip_nonempty)
  note s = s1 s2
  show ?thesis
    using v c p s
    by (simp add: extract_text_def reraise_http_def io_defs combine_pages_assembled)
qed

text \<open>
  A PDF of two pages, the second of which is not recognized: the combined text of
  the service ends with the placeholder of page 2, the combined text of the
  specification ends with the marker line of page 2.
\<close>

theorem pdf_combined_text_counterexample:
  "convert_from_bytes demo_env [5, 0] 300 =
     Inr [\<lparr>mode = ''RGB'', pixels = [5]\<rparr>, \<lparr>mode = ''RGB'', pixels = [0]\<rparr>] \<and>
   map (page_result demo_env ''eng'')
     [\<lparr>mode = ''RGB'', pixels = [5]\<rparr>, \<lparr>mode = ''RGB'', pixels = [0]\<rparr>] =
     [Ok ''Hello   world'', Error (LibError ''tesseract failed'')] \<and>
   fst (extract_text demo_env (UploadFile ''scan.pdf'' [5, 0]) ''eng'' 300) =
     Inr (Extracted
       ''--- Page 1 ---\<newline>Hello   world\<newline>\<newline>--- Page 2 ---\<newline>[Page 2: Processing error]''
       ''pdf'' ''scan.pdf'' 71 ''eng'') \<and>
   spec_combined_text [Ok ''Hello   world'', Error (LibError ''tesseract failed'')] =
     ''--- Page 1 ---\<newline>Hello   world\<newline>\<newline>--- Page 2 ---\<newline>'' \<and>
   fst (extract_text demo_env (UploadFile ''scan.pdf'' [5, 0]) ''eng'' 300) \<noteq>
     Inr (Extracted
       (spec_combined_text [Ok ''Hello   world'', Error (LibError ''tesseract failed'')])
       ''pdf'' ''scan.pdf''
       (length (spec_combined_text [Ok ''Hello   world'', Error (LibError ''tesseract failed'')]))
       ''eng'')"
  by code_simp

theorem pdf_combined_text_witness:
  "validate_file_type ''scan.pdf'' = Inr ''pdf'' \<and>
   convert_from_bytes demo_env [5, 1, 0] 300 =
     Inr [\<lparr>mode = ''RGB'', pixels = [5]\<rparr>, \<lparr>mode = ''RGB'', pixels = [1]\<rparr>, \<lparr>mode = ''RGB'', pixels = [0]\<rparr>] \<and>
   fst (extract_text demo_env (UploadFile ''scan.pdf'' [5, 1, 0]) ''eng'' 300) =
     Inr (Extracted
       ''--- Page 1 ---\<newline>Hello   world\<newline>\<newline>--- Page 2 ---\<newline>[Page 2: No text detected]\<newline>\<newline>--- Page 3 ---\<newline>[Page 3: Processing error]''
       ''pdf'' ''scan.pdf'' 114 ''eng'')"
proof -
  let ?imgs = "[\<lparr>mode = ''RGB'', pixels = [5]\<rparr>, \<lparr>mode = ''RGB'', pixels = [1]\<rparr>, \<lparr>mode = ''RGB'', pixels = [0::8 word]\<rparr>]"
  have v: "validate_file_type (filename (UploadFile ''scan.pdf'' [5, 1, 0])) = Inr ''pdf''"
    by code_simp
  have c: "content (UploadFile ''scan.pdf'' [5, 1, 0]) \<noteq> []" by simp
  have r: "convert_from_bytes demo_env (content (UploadFile ''scan.pdf'' [5, 1, 0])) 300 = Inr ?imgs"
    by code_simp
  have n: "?imgs \<noteq> []" by simp
  have a: "assembled_text demo_env ''eng'' ?imgs =
     ''--- Page 1 ---\<newline>Hello   world\<newline>\<newline>--- Page 2 ---\<newline>[Page 2: No text detected]\<newline>\<newline>--- Page 3 ---\<newline>[Page 3: Processing error]''"
    by code_simp
  show ?thesis
    using pdf_combined_text[OF v c r n, of "''eng''"] v r a by simp
qed

text \<open>
  C3, amended: when the recognition of the preprocessed image of an image document
  raises, the file is decoded again, the image is converted to RGB if it is not,
  and, unless that conversion raises, the recognition is run exactly once more, on
  that image and with the same language; if the second attempt raises, the
  extraction raises a \<open>RuntimeError\<close> with the first exception. When the recognition of a PDF page raises, the recognition is
  not run again: the text of the page is \<open>[Page N: Processing error]\<close> and the
  pages after it are processed.
\<close>

theorem recognition_failure_handling:
  "(open_image E b = Inr img \<and> recognize E (preprocess_image_for_ocr E img) lang = Inl e \<longrightarrow>
      extract_text_from_image_bytes E b lang =
        (case ensure_rgb E img of
           Inl c \<Rightarrow>
             (Inl (RuntimeError (ImageProcessingFailed e)),
              [ImageOpen b, Ocr (preprocess_image_for_ocr E img) lang, ImageOpen b])
         | Inr img' \<Rightarrow>
             (case recognize E img' lang of
                Inl f \<Rightarrow> Inl (RuntimeError (ImageProcessingFailed e))
              | Inr t \<Rightarrow> Inr (strip t),
              [ImageOpen b, Ocr (preprocess_image_for_ocr E img) lang, ImageOpen b, Ocr img' lang]))) \<and>
   (recognize E (preprocess_image_for_ocr E page) lang = Inl e \<longrightarrow>
      process_page E lang i page =
        (Inr (error_placeholder i), [Ocr (preprocess_image_for_ocr E page) lang]) \<and>
      fst (process_pages E lang i (page # rest)) =
        Inr (error_placeholder i #
             map (\<lambda>(j, p). page_contribution j (page_result E lang p)) (List.enumerate (i + 1) rest)) \<and>
      snd (process_pages E lang i (page # rest)) =
        Ocr (preprocess_image_for_ocr E page) lang #
        map (\<lambda>p. Ocr (preprocess_image_for_ocr E p) lang) rest)"
proof -
  have 1: "open_image E b = Inr img \<and> recognize E (preprocess_image_for_ocr E img) lang = Inl e \<longrightarrow>
      extract_text_from_image_bytes E b lang =
        (case ensure_rgb E img of
           Inl c \<Rightarrow>
             (Inl (RuntimeError (ImageProcessingFailed e)),
              [ImageOpen b, Ocr (preprocess_image_for_ocr E img) lang, ImageOpen b])
         | Inr img' \<Rightarrow>
             (case recognize E img' lang of
                Inl f \<Rightarrow> Inl (RuntimeError (ImageProcessingFailed e))
              | Inr t \<Rightarrow> Inr (strip t),
              [ImageOpen b, Ocr (preprocess_image_for_ocr E img) lang, ImageOpen b, Ocr img' lang]))"
    by (simp add: extract_text_from_image_bytes_def io_defs Let_def split: sum.splits)
  have 2: "recognize E (preprocess_image_for_ocr E page) lang = Inl e \<longrightarrow>
      process_page E lang i page =
        (Inr (error_placeholder i), [Ocr (preprocess_image_for_ocr E page) lang])"
  proof
    assume "recognize E (preprocess_image_for_ocr E page) lang = Inl e"
    then have "page_result E lang page = Error e" by (simp add: page_result_def)
    then show "process_page E lang i page =
        (Inr (error_placeholder i), [Ocr (preprocess_image_for_ocr E page) lang])"
      by (simp add: process_page_result page_contribution_def)
  qed
  have 3: "recognize E (preprocess_image_for_ocr E page) lang = Inl e \<longrightarrow>
      fst (process_pages E lang i (page # rest)) =
        Inr (error_placeholder i #
             map (\<lambda>(j, p). page_contribution j (page_result E lang p)) (List.enumerate (i + 1) rest))"
  proof
    assume "recognize E (preprocess_image_for_ocr E page) lang = Inl e"
    then have "page_result E lang page = Error e" by (simp add: page_result_def)
    then show "fst (process_pages E lang i (page # rest)) =
        Inr (error_placeholder i #
             map (\<lambda>(j, p). page_contribution j (page_result E lang p)) (List.enumerate (i + 1) rest))"
      by (simp add: process_pages_result page_contribution_def del: process_pages.simps)
  qed
  have 4: "snd (process_pages E lang i (page # rest)) =
        Ocr (preprocess_image_for_ocr E page) lang #
        map (\<lambda>p. Ocr (preprocess_image_for_ocr E p) lang) rest"
    by (simp only: process_pages_trace list.map)
  from 1 2 3 4 show ?thesis by blast
qed

text \<open>
  An image that is recognized in mode RGB only: as an image document it is
  recognized at the second attempt; as the first page of a PDF it gets the
  placeholder, and the second page is processed.
\<close>

theorem recognition_failure_handling_witness:
  "open_image demo_env [2] = Inr \<lparr>mode = ''RGB'', pixels = [2]\<rparr> \<and>
   recognize demo_env (preprocess_image_for_ocr demo_env \<lparr>mode = ''RGB'', pixels = [2]\<rparr>) ''eng'' =
     Inl (LibError ''tesseract failed'') \<and>
   extract_text_from_image_bytes demo_env [2] ''eng'' =
     (Inr ''Total:  42'',
      [ImageOpen [2], Ocr \<lparr>mode = ''L'', pixels = [2]\<rparr> ''eng'',
       ImageOpen [2], Ocr \<lparr>mode = ''RGB'', pixels = [2]\<rparr> ''eng'']) \<and>
   process_page demo_env ''eng'' 0 \<lparr>mode = ''RGB'', pixels = [2]\<rparr> =
     (Inr ''[Page 1: Processing error]'', [Ocr \<lparr>mode = ''L'', pixels = [2]\<rparr> ''eng'']) \<and>
   fst (process_pages demo_env ''eng'' 0
          [\<lparr>mode = ''RGB'', pixels = [2]\<rparr>, \<lparr>mode = ''RGB'', pixels = [5]\<rparr>]) =
     Inr [''[Page 1: Processing error]'', ''Hello   world''] \<and>
   snd (process_pages demo_env ''eng'' 0
          [\<lparr>mode = ''RGB'', pixels = [2]\<rparr>, \<lparr>mode = ''RGB'', pixels = [5]\<rparr>]) =
     [Ocr \<lparr>mode = ''L'', pixels = [2]\<rparr> ''eng'', Ocr \<lparr>mode = ''L'', pixels = [5]\<rparr> ''eng'']"
proof -
  let ?I = "\<lparr>mode = ''RGB'', pixels = [2::8 word]\<rparr>"
  let ?J = "\<lparr>mode = ''RGB'', pixels = [5::8 word]\<rparr>"
  let ?e = "LibError ''tesseract failed''"
  have a: "open_image demo_env [2] = Inr ?I" by code_simp
  have b: "recognize demo_env (preprocess_image_for_ocr demo_env ?I) ''eng'' = Inl ?e"
    by code_simp
  have p: "preprocess_image_for_ocr demo_env ?I = \<lparr>mode = ''L'', pixels = [2]\<rparr>"
    "preprocess_image_for_ocr demo_env ?J = \<lparr>mode = ''L'', pixels = [5]\<rparr>"
    by code_simp+
  have v1: "ensure_rgb demo_env ?I = Inr ?I" by code_simp
  have v2: "recognize demo_env ?I ''eng'' = Inr (''Total:  42'' @ nl)" by code_simp
  have v3: "strip (''Total:  42'' @ nl) = ''Total:  42''" by code_simp
  have v4: "error_placeholder 0 = ''[Page 1: Processing error]''" by code_simp
  have v5: "map (\<lambda>(j, p). page_contribution j (page_result demo_env ''eng'' p))
              (List.enumerate (0 + 1) [?J]) = [''Hello   world'']"
    by code_simp
  note T = recognition_failure_handling[where E = demo_env and b = "[2]" and img = ?I
      and lang = "''eng''" and e = ?e and page = ?I and i = 0 and rest = "[?J]"]
  note T1 = T[THEN conjunct1, rule_format, OF conjI[OF a b]]
  note T2 = T[THEN conjunct2, rule_format, OF b]
  have r1: "extract_text_from_image_bytes demo_env [2] ''eng'' =
      (Inr ''Total:  42'',
       [ImageOpen [2], Ocr \<lparr>mode = ''L'', pixels = [2]\<rparr> ''eng'', ImageOpen [2], Ocr ?I ''eng''])"
    using T1 by (simp only: v1 v2 v3 p sum.case)
  have r2: "process_page demo_env ''eng'' 0 ?I =
      (Inr ''[Page 1: Processing error]'', [Ocr \<lparr>mode = ''L'', pixels = [2]\<rparr> ''eng''])"
    using T2[THEN conjunct1] by (simp only: v4 p)
  have r3: "fst (process_pages demo_env ''eng'' 0 [?I, ?J]) =
      Inr [''[Page 1: Processing error]'', ''Hello   world'']"
    using T2[THEN conjunct2, THEN conjunct1] by (simp only: v4 v5)
  have r4: "snd (process_pages demo_env ''eng'' 0 [?I, ?J]) =
      [Ocr \<lparr>mode = ''L'', pixels = [2]\<rparr> ''eng'', Ocr \<lparr>mode = ''L'', pixels = [5]\<rparr> ''eng'']"
    using T2[THEN conjunct2, THEN conjunct2] by (simp only: p list.map)
  from a b r1 r2 r3 r4 show ?thesis by (intro conjI)
qed

text \<open>
  The page below is recognized as it is and not after preprocessing. The loop over
  the pages of a PDF runs the recognition once, on the preprocessed page, and
  never on the page as it is.
\<close>

theorem recognition_failure_handling_counterexample:
  "recognize demo_env (preprocess_image_for_ocr demo_env \<lparr>mode = ''RGB'', pixels = [2]\<rparr>) ''eng'' =
     Inl (LibError ''tesseract failed'') \<and>
   recognize demo_env \<lparr>mode = ''RGB'', pixels = [2]\<rparr> ''eng'' = Inr (''Total:  42'' @ nl) \<and>
   snd (process_page demo_env ''eng'' 0 \<lparr>mode = ''RGB'', pixels = [2]\<rparr>) =
     [Ocr \<lparr>mode = ''L'', pixels = [2]\<rparr> ''eng''] \<and>
   Ocr \<lparr>mode = ''RGB'', pixels = [2]\<rparr> ''eng'' \<notin>
     set (snd (process_page demo_env ''eng'' 0 \<lparr>mode = ''RGB'', pixels = [2]\<rparr>))"
  by code_simp

section \<open>Preprocessing\<close>

text \<open>
  \<open>preprocess_image_for_ocr\<close> returns in every case. When the conversion to RGB
  raises, or when the image is in mode RGB already and a later step raises, the
  returned image is the one that was passed in.
\<close>

lemma preprocess_first_step_fails:
  "ensure_rgb E img = Inl e \<Longrightarrow> preprocess_image_for_ocr E img = img"
  by (simp add: preprocess_image_for_ocr_def)

lemma preprocess_later_step_fails:
  "ensure_rgb E img = Inr rgb \<Longrightarrow>
   convert E rgb ''L'' = Inl e \<or>
   (\<exists>g. convert E rgb ''L'' = Inr g \<and>
     (contrast E g = Inl e \<or> (\<exists>h. contrast E g = Inr h \<and> blur E h = Inl e))) \<Longrightarrow>
   preprocess_image_for_ocr E img = rgb"
  by (auto simp: preprocess_image_for_ocr_def)

lemma preprocess_rgb_fails:
  "mode img = ''RGB'' \<Longrightarrow>
   convert E img ''L'' = Inl e \<or>
   (\<exists>g. convert E img ''L'' = Inr g \<and>
     (contrast E g = Inl e \<or> (\<exists>h. contrast E g = Inr h \<and> blur E h = Inl e))) \<Longrightarrow>
   preprocess_image_for_ocr E img = img"
  by (rule preprocess_later_step_fails[where e = e]) (simp_all add: ensure_rgb_def)

text \<open>
  C5: at an image in mode RGBA whose conversion to RGB succeeds and whose conversion
  to grayscale raises, \<open>preprocess_image_for_ocr\<close> does not raise and returns the
  image converted to RGB, which is not the image that was passed in.
\<close>

theorem preprocess_returns_converted_image:
  "convert demo_env \<lparr>mode = ''RGBA'', pixels = [3]\<rparr> ''RGB'' = Inr \<lparr>mode = ''RGB'', pixels = [3]\<rparr> \<and>
   convert demo_env \<lparr>mode = ''RGB'', pixels = [3]\<rparr> ''L'' = Inl (LibError ''conversion failed'') \<and>
   preprocess_image_for_ocr demo_env \<lparr>mode = ''RGBA'', pixels = [3]\<rparr> =
     \<lparr>mode = ''RGB'', pixels = [3]\<rparr> \<and>
   preprocess_image_for_ocr demo_env \<lparr>mode = ''RGBA'', pixels = [3]\<rparr> \<noteq>
     \<lparr>mode = ''RGBA'', pixels = [3]\<rparr>"
  by code_simp

section \<open>Text of an image document\<close>

text \<open>
  When the first recognition returns, the text of an image document is the
  normalized one.
\<close>

lemma extract_text_from_image_bytes_primary:
  "open_image E b = Inr img \<Longrightarrow> recognize E (preprocess_image_for_ocr E img) lang = Inr t \<Longrightarrow>
   extract_text_from_image_bytes E b lang =
     (Inr (clean_text t), [ImageOpen b, Ocr (preprocess_image_for_ocr E img) lang])"
  by (simp add: extract_text_from_image_bytes_def io_defs Let_def)

text \<open>
  C6: at an image whose first recognition raises and whose second recognition
  returns \<open>Total:  42\<close> and a line break, \<open>extract_text_from_image_bytes\<close> returns
  \<open>Total:  42\<close> with its two spaces, where the normalization gives \<open>Total: 42\<close>.
\<close>

theorem fallback_text_only_stripped:
  "recognize demo_env \<lparr>mode = ''RGB'', pixels = [2]\<rparr> ''eng'' = Inr (''Total:  42'' @ nl) \<and>
   fst (extract_text_from_image_bytes demo_env [2] ''eng'') = Inr ''Total:  42'' \<and>
   clean_text (''Total:  42'' @ nl) = ''Total: 42'' \<and>
   fst (extract_text_from_image_bytes demo_env [2] ''eng'') \<noteq>
     Inr (clean_text (''Total:  42'' @ nl))"
  by code_simp

end
